theory Spec2Isabelle
  imports Main "HOL-Library.Char_ord" "HOL-Library.List_Lexorder"
begin

section \<open>lidar2dems: the utilities of l2d/utils.py\<close>

text \<open>
  The Python functions of \<^verbatim>\<open>src/l2d/utils.py\<close> as HOL functions. Python 2 byte strings
  are \<open>string\<close>; an exception is a value \<open>Inl e\<close> of a sum type; what the code hands to
  libraries outside the repository (glob, gippy, scipy, the shell) is a parameter of the
  function that uses it.
\<close>

subsection \<open>Python values and exceptions\<close>

datatype error =
    Exception string
  | IndexError
  | KeyError
  | TypeError
  | ValueError
  | IOError

text \<open>The values that slopes, cell sizes and class codes take: \<^verbatim>\<open>None\<close>, integers, strings.\<close>

datatype pyval = PyNone | PyInt int | PyStr string

definition digit_char :: "nat \<Rightarrow> char" where
  "digit_char d = char_of (48 + d)"

function str_nat :: "nat \<Rightarrow> string" where
  "str_nat n = (if n < 10 then [digit_char n] else str_nat (n div 10) @ [digit_char (n mod 10)])"
  by pat_completeness auto
termination
  by (relation "measure (\<lambda>n. n)") auto

declare str_nat.simps [simp del]

definition str_int :: "int \<Rightarrow> string" where
  "str_int i = (if i < 0 then CHR ''-'' # str_nat (nat (- i)) else str_nat (nat i))"

text \<open>What \<^verbatim>\<open>'%s' % v\<close> prints.\<close>

fun pystr :: "pyval \<Rightarrow> string" where
  "pystr PyNone = ''None''"
| "pystr (PyInt i) = str_int i"
| "pystr (PyStr s) = s"

text \<open>\<^verbatim>\<open>sep.join(xs)\<close>\<close>

fun join :: "string \<Rightarrow> string list \<Rightarrow> string" where
  "join sep [] = []"
| "join sep [x] = x"
| "join sep (x # y # ys) = x @ sep @ join sep (y # ys)"

subsection \<open>os.path\<close>

text \<open>
  \<^verbatim>\<open>str.rfind\<close> for a single character: the index of its last occurrence, or -1.
\<close>

primrec find_last :: "'a \<Rightarrow> 'a list \<Rightarrow> nat option" where
  "find_last c [] = None"
| "find_last c (x # xs) =
     (case find_last c xs of
        Some k \<Rightarrow> Some (Suc k)
      | None \<Rightarrow> if x = c then Some 0 else None)"

definition rfind :: "string \<Rightarrow> char \<Rightarrow> int" where
  "rfind p c = (case find_last c p of None \<Rightarrow> - 1 | Some k \<Rightarrow> int k)"

text \<open>
  The loop of the standard library's \<^verbatim>\<open>_splitext\<close>, which skips the leading dots of the
  last path component:
  \<^verbatim>\<open>
    while filenameIndex < dotIndex:
        if p[filenameIndex] != extsep:
            return p[:dotIndex], p[dotIndex:]
        filenameIndex += 1
  \<close>
  \<open>True\<close> when the loop returns the split, \<open>False\<close> when it runs out.
\<close>

function nondot_before :: "string \<Rightarrow> nat \<Rightarrow> nat \<Rightarrow> bool" where
  "nondot_before p filenameIndex dotIndex =
     (if filenameIndex < dotIndex
      then (if p ! filenameIndex \<noteq> CHR ''.'' then True
            else nondot_before p (Suc filenameIndex) dotIndex)
      else False)"
  by pat_completeness auto
termination
  by (relation "measure (\<lambda>(p, k, d). d - k)") auto

declare nondot_before.simps [simp del]

text \<open>
  \<^verbatim>\<open>os.path.splitext\<close> (posixpath: separator \<^verbatim>\<open>/\<close>, no alternative separator, extension
  separator \<^verbatim>\<open>.\<close>):
  \<^verbatim>\<open>
    sepIndex = p.rfind(sep)
    dotIndex = p.rfind(extsep)
    if dotIndex > sepIndex:
        filenameIndex = sepIndex + 1
        while ...
    return p, ''
  \<close>
\<close>

definition splitext :: "string \<Rightarrow> string \<times> string" where
  "splitext p =
     (let sepIndex = rfind p CHR ''/'';
          dotIndex = rfind p CHR ''.''
      in if dotIndex > sepIndex \<and> nondot_before p (nat (sepIndex + 1)) (nat dotIndex)
         then (take (nat dotIndex) p, drop (nat dotIndex) p)
         else (p, []))"

text \<open>\<^verbatim>\<open>os.path.join(a, b)\<close> (posixpath, two arguments).\<close>

definition path_join :: "string \<Rightarrow> string \<Rightarrow> string" where
  "path_join a b =
     (if b \<noteq> [] \<and> hd b = CHR ''/'' then b
      else if a = [] \<or> last a = CHR ''/'' then a @ b
      else a @ ''/'' @ b)"

subsection \<open>File utilities\<close>

definition compound_exts :: "string list" where
  "compound_exts = [''.den'', ''.min'', ''.max'', ''.mean'', ''.idw'', ''.count'']"

text \<open>
  \<^verbatim>\<open>
  def splitexts(filename):
      bname, ext = os.path.splitext(filename)
      parts = os.path.splitext(bname)
      if len(parts) == 2 and parts[1] in ['.den', '.min', '.max', '.mean', '.idw', '.count']:
          bname = parts[0]
          ext = parts[1] + ext
      return bname, ext
  \<close>
  \<open>parts\<close> is the pair that \<open>splitext\<close> returns, so \<^verbatim>\<open>len(parts) == 2\<close> holds.
\<close>

definition splitexts :: "string \<Rightarrow> string \<times> string" where
  "splitexts filename =
     (let (bname, ext) = splitext filename;
          parts = splitext bname
      in if snd parts \<in> set compound_exts
         then (fst parts, snd parts @ ext)
         else (bname, ext))"

text \<open>
  A feature is \<^verbatim>\<open>None\<close> or an object with attributes; \<^verbatim>\<open>feature['class']\<close> raises on
  \<^verbatim>\<open>None\<close> and on a feature without that attribute.
\<close>

type_synonym feature = "(string \<rightharpoonup> pyval) option"

definition getitem :: "feature \<Rightarrow> string \<Rightarrow> error + pyval" where
  "getitem feature k =
     (case feature of
        None \<Rightarrow> Inl TypeError
      | Some attrs \<Rightarrow> (case attrs k of None \<Rightarrow> Inl KeyError | Some v \<Rightarrow> Inr v))"

text \<open>The dictionary \<^verbatim>\<open>params\<close> of \<^verbatim>\<open>class_params\<close>; its keys are strings.\<close>

definition params :: "pyval \<rightharpoonup> pyval \<times> pyval" where
  "params = [PyStr ''1'' \<mapsto> (PyInt 1, PyInt 3),
             PyStr ''2'' \<mapsto> (PyInt 1, PyInt 2),
             PyStr ''3'' \<mapsto> (PyInt 5, PyInt 2),
             PyStr ''4'' \<mapsto> (PyInt 10, PyInt 2)]"

text \<open>The body of the \<^verbatim>\<open>try\<close>: \<^verbatim>\<open>return params[feature['class']]\<close>.\<close>

definition class_lookup :: "feature \<Rightarrow> error + pyval \<times> pyval" where
  "class_lookup feature =
     (case getitem feature ''class'' of
        Inl e \<Rightarrow> Inl e
      | Inr c \<Rightarrow> (case params c of None \<Rightarrow> Inl KeyError | Some p \<Rightarrow> Inr p))"

text \<open>
  \<^verbatim>\<open>
  def class_params(feature, slope=None, cellsize=None):
      if slope is not None and cellsize is not None:
          return (slope, cellsize)
      else:
          try:
              params = {'1': (1, 3), '2': (1, 2), '3': (5, 2), '4': (10, 2)}
              return params[feature['class']]
          except:
              if slope is None:
                  slope = '1'
              if cellsize is None:
                  cellsize = '3'
              return (slope, cellsize)
  \<close>
\<close>

definition class_params :: "feature \<Rightarrow> pyval \<Rightarrow> pyval \<Rightarrow> error + pyval \<times> pyval" where
  "class_params feature slope cellsize =
     (if slope \<noteq> PyNone \<and> cellsize \<noteq> PyNone then Inr (slope, cellsize)
      else case class_lookup feature of
             Inr p \<Rightarrow> Inr p
           | Inl e \<Rightarrow>
               Inr (if slope = PyNone then PyStr ''1'' else slope,
                    if cellsize = PyNone then PyStr ''3'' else cellsize))"

text \<open>\<^verbatim>\<open>'%sl2d_s%sc%s.las' % (suffix, slope, cellsize)\<close>\<close>

definition class_suffix :: "pyval \<Rightarrow> pyval \<Rightarrow> string \<Rightarrow> string" where
  "class_suffix slope cellsize suffix =
     suffix @ ''l2d_s'' @ pystr slope @ ''c'' @ pystr cellsize @ ''.las''"

text \<open>A site vector; the code reads its base name, the overlap check reads the rest.\<close>

record geovector =
  Basename :: string

text \<open>
  \<^verbatim>\<open>
  def find_lasfiles(lasdir='', site=None, checkoverlap=False):
      filenames = glob.glob(os.path.join(lasdir, '*.las'))
      if checkoverlap and site is not None:
          filenames = check_overlap(filenames, site)
      if len(filenames) == 0:
          raise Exception("No LAS files found")
      return filenames
  \<close>
  \<open>glob\<close> is the directory listing, \<open>check_overlap\<close> the filter of l2d/geo.py.
\<close>

definition find_lasfiles ::
  "(string \<Rightarrow> string list) \<Rightarrow> (string list \<Rightarrow> 'a geovector_scheme \<Rightarrow> string list) \<Rightarrow>
   string \<Rightarrow> 'a geovector_scheme option \<Rightarrow> bool \<Rightarrow> error + string list" where
  "find_lasfiles glob check_overlap lasdir site checkoverlap =
     (let filenames = glob (path_join lasdir ''*.las'');
          filenames = (case site of
                         Some s \<Rightarrow> if checkoverlap then check_overlap filenames s else filenames
                       | None \<Rightarrow> filenames)
      in if length filenames = 0 then Inl (Exception ''No LAS files found'')
         else Inr filenames)"

text \<open>
  \<^verbatim>\<open>
  def find_classified_lasfile(lasdir='', site=None, params=('1', '3')):
      bname = '' if site is None else site.Basename() + '_'
      slope, cellsize = params[0], params[1]
      pattern = bname + class_suffix(slope, cellsize)
      filenames = glob.glob(os.path.join(lasdir, pattern))
      if len(filenames) == 0:
          raise Exception("No classified LAS files found")
      return filenames
  \<close>
\<close>

definition find_classified_lasfile ::
  "(string \<Rightarrow> string list) \<Rightarrow> string \<Rightarrow> 'a geovector_scheme option \<Rightarrow> pyval \<times> pyval \<Rightarrow>
   error + string list" where
  "find_classified_lasfile glob lasdir site ps =
     (let bname = (case site of None \<Rightarrow> [] | Some s \<Rightarrow> Basename s @ ''_'');
          slope = fst ps;
          cellsize = snd ps;
          pattern = bname @ class_suffix slope cellsize [];
          filenames = glob (path_join lasdir pattern)
      in if length filenames = 0 then Inl (Exception ''No classified LAS files found'')
         else Inr filenames)"

text \<open>
  The file system as \<^verbatim>\<open>create_vrt\<close> sees it: the paths that exist, the shell commands
  issued so far, and what was printed.
\<close>

record world =
  files :: "string set"
  commands :: "string list"
  stdout :: "string list"

text \<open>\<^verbatim>\<open>os.system(cmd)\<close>: the command is issued; \<open>run\<close> is what it does to the files.\<close>

definition os_system :: "(string \<Rightarrow> string set \<Rightarrow> string set) \<Rightarrow> string \<Rightarrow> world \<Rightarrow> world" where
  "os_system run cmd w = w\<lparr>files := run cmd (files w), commands := commands w @ [cmd]\<rparr>"

text \<open>
  \<^verbatim>\<open>
  def create_vrt(filenames, fout, site=[None], overwrite=False, verbose=False):
      if os.path.exists(fout) and not overwrite:
          return fout
      cmd = ['gdalbuildvrt']
      if not verbose:
          cmd.append('-q')
      if site[0] is not None:
          bounds = get_vector_bounds(site)
          cmd.append('-te %s' % (' '.join(map(str, bounds))))
      cmd.append(fout)
      cmd = cmd + filenames
      if verbose:
          print 'Combining %s files into %s' % (len(filenames), fout)
      os.system(' '.join(cmd))
      return fout
  \<close>
  \<open>get_vector_bounds\<close> is the function of l2d/geo.py and \<open>str\<close> prints one bound;
  \<^verbatim>\<open>site[0]\<close> raises on an empty sequence.
\<close>

definition create_vrt ::
  "(string \<Rightarrow> string set \<Rightarrow> string set) \<Rightarrow> ('f option list \<Rightarrow> 'b list) \<Rightarrow> ('b \<Rightarrow> string) \<Rightarrow>
   world \<Rightarrow> string list \<Rightarrow> string \<Rightarrow> 'f option list \<Rightarrow> bool \<Rightarrow> bool \<Rightarrow>
   (error + string) \<times> world" where
  "create_vrt run get_vector_bounds str w filenames fout site overwrite verbose =
     (if fout \<in> files w \<and> \<not> overwrite then (Inr fout, w)
      else
        let cmd = [''gdalbuildvrt''];
            cmd = (if \<not> verbose then cmd @ [''-q''] else cmd)
        in case site of
             [] \<Rightarrow> (Inl IndexError, w)
           | s0 # _ \<Rightarrow>
               let cmd = (if s0 \<noteq> None
                          then cmd @ [''-te '' @ join '' '' (map str (get_vector_bounds site))]
                          else cmd);
                   cmd = cmd @ [fout];
                   cmd = cmd @ filenames;
                   w = (if verbose
                        then w\<lparr>stdout := stdout w @
                               [''Combining '' @ str_nat (length filenames) @
                                '' files into '' @ fout]\<rparr>
                        else w);
                   w = os_system run (join '' '' cmd) w
               in (Inr fout, w))"

subsection \<open>Rasters\<close>

text \<open>
  A two-dimensional numpy array: its shape and the value at each index. Only the cells
  inside the shape belong to the array. The cell type \<open>'a\<close> stands for the raster's data
  type; its subtraction \<open>sub\<close> and its comparison \<open>eq\<close> (\<^verbatim>\<open>==\<close>, which for floating
  point is not reflexive at NaN) are parameters of the functions that use them.
\<close>

record 'a ndarray =
  nrows :: nat
  ncols :: nat
  cell :: "nat \<Rightarrow> nat \<Rightarrow> 'a"

definition shape :: "'a ndarray \<Rightarrow> nat \<times> nat" where
  "shape a = (nrows a, ncols a)"

text \<open>\<^verbatim>\<open>a[0:k, :]\<close> and \<^verbatim>\<open>a[:, 0:k]\<close>\<close>

definition slice_rows :: "nat \<Rightarrow> 'a ndarray \<Rightarrow> 'a ndarray" where
  "slice_rows k a = a\<lparr>nrows := min k (nrows a)\<rparr>"

definition slice_cols :: "nat \<Rightarrow> 'a ndarray \<Rightarrow> 'a ndarray" where
  "slice_cols k a = a\<lparr>ncols := min k (ncols a)\<rparr>"

text \<open>\<^verbatim>\<open>a == v\<close> and \<^verbatim>\<open>a != v\<close>, elementwise against a scalar.\<close>

definition eq_scalar :: "('a \<Rightarrow> 'a \<Rightarrow> bool) \<Rightarrow> 'a ndarray \<Rightarrow> 'a \<Rightarrow> bool ndarray" where
  "eq_scalar eq a v = \<lparr>nrows = nrows a, ncols = ncols a, cell = (\<lambda>i j. eq (cell a i j) v)\<rparr>"

definition ne_scalar :: "('a \<Rightarrow> 'a \<Rightarrow> bool) \<Rightarrow> 'a ndarray \<Rightarrow> 'a \<Rightarrow> bool ndarray" where
  "ne_scalar eq a v = \<lparr>nrows = nrows a, ncols = ncols a, cell = (\<lambda>i j. \<not> eq (cell a i j) v)\<rparr>"

text \<open>\<^verbatim>\<open>numpy.where(m)\<close>: the indices of the true cells, in row-major order.\<close>

definition where_true :: "bool ndarray \<Rightarrow> (nat \<times> nat) list" where
  "where_true m = filter (\<lambda>(i, j). cell m i j) (List.product [0..<nrows m] [0..<ncols m])"

definition in_bounds :: "'a ndarray \<Rightarrow> (nat \<times> nat) list \<Rightarrow> bool" where
  "in_bounds a locs = list_all (\<lambda>(i, j). i < nrows a \<and> j < ncols a) locs"

text \<open>\<^verbatim>\<open>a[locs]\<close>: the values at a list of indices.\<close>

definition take_at :: "'a ndarray \<Rightarrow> (nat \<times> nat) list \<Rightarrow> error + 'a list" where
  "take_at a locs =
     (if in_bounds a locs then Inr (map (\<lambda>(i, j). cell a i j) locs) else Inl IndexError)"

text \<open>Storing one value after the other, as the assignment \<^verbatim>\<open>a[locs] = vs\<close> does.\<close>

fun put :: "'a ndarray \<Rightarrow> (nat \<times> nat) list \<Rightarrow> 'a list \<Rightarrow> 'a ndarray" where
  "put a ((i, j) # locs) (v # vs) = put (a\<lparr>cell := (cell a)(i := (cell a i)(j := v))\<rparr>) locs vs"
| "put a _ _ = a"

text \<open>
  \<^verbatim>\<open>a[locs] = vs\<close>: the values are broadcast to the number of indices, so one value
  serves for all of them and any other number of values is a ValueError.
\<close>

definition assign_at :: "'a ndarray \<Rightarrow> (nat \<times> nat) list \<Rightarrow> 'a list \<Rightarrow> error + 'a ndarray" where
  "assign_at a locs vs =
     (if \<not> in_bounds a locs then Inl IndexError
      else if length vs = length locs then Inr (put a locs vs)
      else if length vs = 1 then Inr (put a locs (replicate (length locs) (hd vs)))
      else Inl ValueError)"

text \<open>\<^verbatim>\<open>a[locs] = v\<close> for a scalar \<open>v\<close>.\<close>

definition assign_scalar :: "'a ndarray \<Rightarrow> (nat \<times> nat) list \<Rightarrow> 'a \<Rightarrow> error + 'a ndarray" where
  "assign_scalar a locs v =
     (if in_bounds a locs then Inr (put a locs (replicate (length locs) v)) else Inl IndexError)"

text \<open>\<^verbatim>\<open>a[m] = v\<close> for a boolean array \<open>m\<close>, which must have the shape of \<open>a\<close>.\<close>

definition mask_assign :: "'a ndarray \<Rightarrow> bool ndarray \<Rightarrow> 'a \<Rightarrow> error + 'a ndarray" where
  "mask_assign a m v =
     (if shape m = shape a then assign_scalar a (where_true m) v else Inl IndexError)"

text \<open>
  \<^verbatim>\<open>a - b\<close> for arrays of one shape. For two different shapes numpy broadcasts or raises
  a ValueError; \<open>create_chm\<close> never gets there, see \<open>clip_to_smallest_shape\<close>.
\<close>

definition subtract :: "('a \<Rightarrow> 'a \<Rightarrow> 'a) \<Rightarrow> 'a ndarray \<Rightarrow> 'a ndarray \<Rightarrow> error + 'a ndarray" where
  "subtract sub a b =
     (if shape a = shape b
      then Inr \<lparr>nrows = nrows a, ncols = ncols a, cell = (\<lambda>i j. sub (cell a i j) (cell b i j))\<rparr>
      else Inl ValueError)"

text \<open>
  Band 0 of a raster file as gippy reads it, the only band the code touches: its nodata
  value and its array. The raster files on disk are a map from file names.
\<close>

record 'a geoimage =
  NoDataValue :: 'a
  Read :: "'a ndarray"

type_synonym 'a rasters = "string \<rightharpoonup> 'a geoimage"

definition GeoImage :: "'a rasters \<Rightarrow> string \<Rightarrow> error + 'a geoimage" where
  "GeoImage store filename = (case store filename of None \<Rightarrow> Inl IOError | Some img \<Rightarrow> Inr img)"

fun GeoImages :: "'a rasters \<Rightarrow> string list \<Rightarrow> error + 'a geoimage list" where
  "GeoImages store [] = Inr []"
| "GeoImages store (f # fs) =
     (case GeoImage store f of
        Inl e \<Rightarrow> Inl e
      | Inr img \<Rightarrow> (case GeoImages store fs of Inl e \<Rightarrow> Inl e | Inr imgs \<Rightarrow> Inr (img # imgs)))"

text \<open>
  What a function hands to gippy for its output file: the file name; the rows and
  columns of the raster, which \<^verbatim>\<open>gippy.GeoImage(filename, template)\<close> takes from the
  template image when it creates the file; the nodata value set on it (\<^verbatim>\<open>SetNoData\<close>);
  and the array written to band 0 (\<^verbatim>\<open>Write\<close>). \<open>clipfile\<close> is the temporary file of
  the clipping step of \<open>gap_fill\<close>, when there is a site.
\<close>

record 'a written =
  Filename :: string
  extent :: "nat \<times> nat"
  NoData :: 'a
  data :: "'a ndarray"
  clipfile :: "string option"

text \<open>
  Lines 140 to 151 of \<^verbatim>\<open>create_chm\<close>:
  \<^verbatim>\<open>
    s1 = dsm_arr.shape
    s2 = dtm_arr.shape
    if s1 != s2:
        if s1[0] > s2[0]:
            dsm_arr = dsm_arr[0:s2[0], :]
        elif s2[0] > s1[0]:
            dtm_arr = dtm_arr[0:s1[0], :]
        if s1[1] > s2[1]:
            dsm_arr = dsm_arr[:, 0:s2[1]]
        elif s2[1] > s1[1]:
            dtm_arr = dtm_arr[:, 0:s1[1]]
  \<close>
\<close>

definition clip_to_smallest :: "'a ndarray \<Rightarrow> 'a ndarray \<Rightarrow> 'a ndarray \<times> 'a ndarray" where
  "clip_to_smallest dsm_arr dtm_arr =
     (let s1 = shape dsm_arr;
          s2 = shape dtm_arr
      in if s1 \<noteq> s2
         then
           let (dsm_arr, dtm_arr) =
                 (if fst s1 > fst s2 then (slice_rows (fst s2) dsm_arr, dtm_arr)
                  else if fst s2 > fst s1 then (dsm_arr, slice_rows (fst s1) dtm_arr)
                  else (dsm_arr, dtm_arr));
               (dsm_arr, dtm_arr) =
                 (if snd s1 > snd s2 then (slice_cols (snd s2) dsm_arr, dtm_arr)
                  else if snd s2 > snd s1 then (dsm_arr, slice_cols (snd s1) dtm_arr)
                  else (dsm_arr, dtm_arr))
           in (dsm_arr, dtm_arr)
         else (dsm_arr, dtm_arr))"

text \<open>
  \<^verbatim>\<open>
  def create_chm(dtm, dsm, chm):
      dtm_img = gippy.GeoImage(dtm)
      dsm_img = gippy.GeoImage(dsm)
      imgout = gippy.GeoImage(chm, dtm_img)
      dtm_nodata = dtm_img[0].NoDataValue()
      dsm_nodata = dsm_img[0].NoDataValue()
      nodata = dtm_nodata
      imgout.SetNoData(nodata)
      dsm_arr = dsm_img[0].Read()
      dtm_arr = dtm_img[0].Read()
      ... (the clip above)
      arr = dsm_arr - dtm_arr
      arr[dtm_arr == dtm_nodata] = nodata
      locs = numpy.where(dsm_arr == dsm_nodata)
      arr[locs] = nodata
      imgout[0].Write(arr)
      return imgout.Filename()
  \<close>
\<close>

definition create_chm ::
  "('a \<Rightarrow> 'a \<Rightarrow> 'a) \<Rightarrow> ('a \<Rightarrow> 'a \<Rightarrow> bool) \<Rightarrow> 'a rasters \<Rightarrow> string \<Rightarrow> string \<Rightarrow> string \<Rightarrow>
   error + 'a written" where
  "create_chm sub eq store dtm dsm chm =
     (case GeoImage store dtm of
        Inl e \<Rightarrow> Inl e
      | Inr dtm_img \<Rightarrow>
     (case GeoImage store dsm of
        Inl e \<Rightarrow> Inl e
      | Inr dsm_img \<Rightarrow>
     (let dtm_nodata = NoDataValue dtm_img;
          dsm_nodata = NoDataValue dsm_img;
          nodata = dtm_nodata;
          dsm_arr = Read dsm_img;
          dtm_arr = Read dtm_img;
          (dsm_arr, dtm_arr) = clip_to_smallest dsm_arr dtm_arr
      in case subtract sub dsm_arr dtm_arr of
           Inl e \<Rightarrow> Inl e
         | Inr arr \<Rightarrow>
        (case mask_assign arr (eq_scalar eq dtm_arr dtm_nodata) nodata of
           Inl e \<Rightarrow> Inl e
         | Inr arr \<Rightarrow>
        (let locs = where_true (eq_scalar eq dsm_arr dsm_nodata)
         in case assign_scalar arr locs nodata of
              Inl e \<Rightarrow> Inl e
            | Inr arr \<Rightarrow>
                Inr \<lparr>Filename = chm, extent = shape (Read dtm_img), NoData = nodata,
                     data = arr, clipfile = None\<rparr>)))))"

text \<open>
  The loop of \<^verbatim>\<open>gap_fill\<close> over the rasters after the first:
  \<^verbatim>\<open>
    for i in range(1, imgs.size()):
        locs = numpy.where(arr == nodata)
        arr[locs] = imgs[i][0].Read()[locs]
  \<close>
\<close>

fun fill_from ::
  "('a \<Rightarrow> 'a \<Rightarrow> bool) \<Rightarrow> 'a \<Rightarrow> 'a ndarray \<Rightarrow> 'a geoimage list \<Rightarrow> error + 'a ndarray" where
  "fill_from eq nodata arr [] = Inr arr"
| "fill_from eq nodata arr (img # imgs) =
     (let locs = where_true (eq_scalar eq arr nodata)
      in case take_at (Read img) locs of
           Inl e \<Rightarrow> Inl e
         | Inr vs \<Rightarrow>
             (case assign_at arr locs vs of
                Inl e \<Rightarrow> Inl e
              | Inr arr \<Rightarrow> fill_from eq nodata arr imgs))"

text \<open>
  \<^verbatim>\<open>
  def gap_fill(filenames, fout, site=None, interpolation='nearest'):
      if len(filenames) == 0:
          raise Exception('No filenames provided!')
      filenames = sorted(filenames)
      imgs = gippy.GeoImages(filenames)
      nodata = imgs[0][0].NoDataValue()
      arr = imgs[0][0].Read()
      ... (the loop above)
      goodlocs = numpy.where(arr != nodata)
      badlocs = numpy.where(arr == nodata)
      arr[badlocs] = griddata(goodlocs, arr[goodlocs], badlocs, method=interpolation)
      imgout = gippy.GeoImage(fout, imgs[0])
      imgout.SetNoData(nodata)
      imgout[0].Write(arr)
      fout = imgout.Filename()
      if site is not None:
          ...
          parts = splitexts(fout)
          _fout = parts[0] + '_clip' + parts[1]
          CookieCutter(gippy.GeoImages([fout]), site, _fout, gt[1], abs(gt[5]), True)
          ...
      return fout
  \<close>
  \<open>griddata\<close> is scipy's interpolation: from the known points, their values and the
  query points to the values at the query points, or an exception. The result is what
  lines 165 to 190 write; with a site, gippy's CookieCutter then clips that file through
  the temporary file \<open>clipfile\<close>.
\<close>

definition gap_fill ::
  "('a \<Rightarrow> 'a \<Rightarrow> bool) \<Rightarrow>
   ((nat \<times> nat) list \<Rightarrow> 'a list \<Rightarrow> (nat \<times> nat) list \<Rightarrow> string \<Rightarrow> error + 'a list) \<Rightarrow>
   'a rasters \<Rightarrow> string list \<Rightarrow> string \<Rightarrow> 's option \<Rightarrow> string \<Rightarrow> error + 'a written" where
  "gap_fill eq griddata store filenames fout site interpolation =
     (if length filenames = 0 then Inl (Exception ''No filenames provided!'')
      else
        let filenames = sort filenames
        in case GeoImages store filenames of
             Inl e \<Rightarrow> Inl e
           | Inr imgs \<Rightarrow>
          (let nodata = NoDataValue (hd imgs);
               arr = Read (hd imgs)
           in case fill_from eq nodata arr (tl imgs) of
                Inl e \<Rightarrow> Inl e
              | Inr arr \<Rightarrow>
             (let goodlocs = where_true (ne_scalar eq arr nodata);
                  badlocs = where_true (eq_scalar eq arr nodata)
              in case take_at arr goodlocs of
                   Inl e \<Rightarrow> Inl e
                 | Inr vals \<Rightarrow>
                (case griddata goodlocs vals badlocs interpolation of
                   Inl e \<Rightarrow> Inl e
                 | Inr interpolated \<Rightarrow>
                (case assign_at arr badlocs interpolated of
                   Inl e \<Rightarrow> Inl e
                 | Inr arr \<Rightarrow>
                     Inr \<lparr>Filename = fout, extent = shape (Read (hd imgs)),
                          NoData = nodata, data = arr,
                          clipfile = (case site of
                                        None \<Rightarrow> None
                                      | Some s \<Rightarrow>
                                          (let parts = splitexts fout
                                           in Some (fst parts @ ''_clip'' @ snd parts)))\<rparr>)))))"

subsection \<open>The merge of gap filling, in the words of the specification\<close>

text \<open>
  First writer wins: of the values of one cell in the rasters, in their order, the first
  that is not nodata, and the last one when all of them are nodata.
\<close>

fun first_valid :: "('a \<Rightarrow> 'a \<Rightarrow> bool) \<Rightarrow> 'a \<Rightarrow> 'a \<Rightarrow> 'a list \<Rightarrow> 'a" where
  "first_valid eq nodata v [] = v"
| "first_valid eq nodata v (w # ws) = (if eq v nodata then first_valid eq nodata w ws else v)"

text \<open>
  The merged raster that the specification describes for a first raster \<open>A\<close> and the
  rasters \<open>rest\<close> after it: the shape of \<open>A\<close>, each cell the first valid value, with
  the nodata value of \<open>A\<close>.
\<close>

definition merged :: "('a \<Rightarrow> 'a \<Rightarrow> bool) \<Rightarrow> 'a geoimage \<Rightarrow> 'a geoimage list \<Rightarrow> 'a ndarray" where
  "merged eq A rest =
     \<lparr>nrows = nrows (Read A), ncols = ncols (Read A),
      cell = (\<lambda>i j. first_valid eq (NoDataValue A) (cell (Read A) i j)
                      (map (\<lambda>B. cell (Read B) i j) rest))\<rparr>"

text \<open>
  The claim's reading of "valid" taken raster by raster: of the values of one cell in the
  rasters, in their order, the first that is not the nodata value of its own raster.
\<close>

fun first_own_valid :: "('a \<Rightarrow> 'a \<Rightarrow> bool) \<Rightarrow> 'a geoimage list \<Rightarrow> nat \<Rightarrow> nat \<Rightarrow> 'a option" where
  "first_own_valid eq [] i j = None"
| "first_own_valid eq (B # Bs) i j =
     (if \<not> eq (cell (Read B) i j) (NoDataValue B) then Some (cell (Read B) i j)
      else first_own_valid eq Bs i j)"

text \<open>The value of one cell of the array written.\<close>

definition value_at :: "nat \<Rightarrow> nat \<Rightarrow> 'a written \<Rightarrow> 'a" where
  "value_at i j out = cell (data out) i j"

text \<open>
  An interpolation for examples: it returns the value \<open>c\<close> for every query point.
\<close>

definition fill_with ::
  "'a \<Rightarrow> (nat \<times> nat) list \<Rightarrow> 'a list \<Rightarrow> (nat \<times> nat) list \<Rightarrow> string \<Rightarrow> error + 'a list" where
  "fill_with c goodlocs vals badlocs method = Inr (replicate (length badlocs) c)"

text \<open>\<^verbatim>\<open>numpy.array(rows)\<close> for a list of rows of one length, to write down examples.\<close>

definition array :: "'a list list \<Rightarrow> 'a ndarray" where
  "array rows =
     \<lparr>nrows = length rows, ncols = (case rows of [] \<Rightarrow> 0 | r # _ \<Rightarrow> length r),
      cell = (\<lambda>i j. rows ! i ! j)\<rparr>"

section \<open>Properties\<close>

subsection \<open>Splitting extensions\<close>

lemma splitext_roundtrip: "splitext p = (b, e) \<Longrightarrow> b @ e = p"
  by (auto simp add: splitext_def Let_def split: if_splits)

lemma find_last_append:
  "find_last c (xs @ ys) =
     (case find_last c ys of Some k \<Rightarrow> Some (length xs + k) | None \<Rightarrow> find_last c xs)"
  by (induction xs) (auto split: option.splits)

lemma find_last_None: "find_last c xs = None \<longleftrightarrow> c \<notin> set xs"
  by (induction xs) (auto split: option.splits)

lemma find_last_Some: "find_last c xs = Some k \<Longrightarrow> k < length xs \<and> xs ! k = c"
  by (induction xs arbitrary: k) (auto split: option.splits if_splits)

lemma find_last_before:
  assumes "find_last c xs = Some k" and "c \<notin> set (drop i xs)"
  shows "k < i"
proof (rule ccontr)
  assume "\<not> k < i"
  then have "i \<le> k" by simp
  from assms(1) have k: "k < length xs" "xs ! k = c" by (simp_all add: find_last_Some)
  from \<open>i \<le> k\<close> k(1) have "drop i xs ! (k - i) = xs ! k" "k - i < length (drop i xs)"
    by simp_all
  then have "xs ! k \<in> set (drop i xs)" by (metis nth_mem)
  with k(2) assms(2) show False by simp
qed

lemma rfind_stem:
  assumes "CHR ''/'' \<notin> set r" and "CHR ''/'' \<notin> set (drop i b)"
  shows "rfind (b @ CHR ''.'' # r) CHR ''/'' < int i"
proof (cases "find_last CHR ''/'' b")
  case None
  with assms(1) show ?thesis
    by (simp add: rfind_def find_last_append find_last_None[THEN iffD2])
next
  case (Some k)
  from Some assms(2) have "k < i" by (rule find_last_before)
  with Some assms(1) show ?thesis
    by (simp add: rfind_def find_last_append find_last_None[THEN iffD2])
qed

lemma rfind_dot:
  assumes "CHR ''.'' \<notin> set r"
  shows "rfind (b @ CHR ''.'' # r) CHR ''.'' = int (length b)"
  using assms by (simp add: rfind_def find_last_append find_last_None[THEN iffD2])

lemma nondot_before_iff:
  "nondot_before p k d \<longleftrightarrow> (\<exists>i. k \<le> i \<and> i < d \<and> p ! i \<noteq> CHR ''.'')"
proof (induction p k d rule: nondot_before.induct)
  case (1 p k d)
  show ?case
  proof (cases "k < d")
    case False
    then show ?thesis by (subst nondot_before.simps) auto
  next
    case True
    show ?thesis
    proof (cases "p ! k \<noteq> CHR ''.''")
      case True
      with \<open>k < d\<close> show ?thesis by (subst nondot_before.simps) auto
    next
      case False
      with \<open>k < d\<close> 1
      have "nondot_before p k d \<longleftrightarrow> (\<exists>i. Suc k \<le> i \<and> i < d \<and> p ! i \<noteq> CHR ''.'')"
        by (subst nondot_before.simps) simp
      also have "\<dots> \<longleftrightarrow> (\<exists>i. k \<le> i \<and> i < d \<and> p ! i \<noteq> CHR ''.'')"
        using False by (metis Suc_leD Suc_leI le_neq_implies_less)
      finally show ?thesis .
    qed
  qed
qed

text \<open>
  A stem whose last path component has a character other than a dot, followed by a dot
  and a suffix without dots and slashes, is split at that dot.
\<close>

lemma splitext_stem:
  assumes i: "i < length b" "b ! i \<noteq> CHR ''.''" "CHR ''/'' \<notin> set (drop i b)"
    and r: "CHR ''.'' \<notin> set r" "CHR ''/'' \<notin> set r"
  shows "splitext (b @ CHR ''.'' # r) = (b, CHR ''.'' # r)"
proof -
  let ?p = "b @ CHR ''.'' # r"
  have sep: "rfind ?p CHR ''/'' < int i" using r(2) i(3) by (rule rfind_stem)
  have dot: "rfind ?p CHR ''.'' = int (length b)" using r(1) by (rule rfind_dot)
  have "nat (rfind ?p CHR ''/'' + 1) \<le> i" using sep by simp
  moreover have "?p ! i \<noteq> CHR ''.''" using i(1,2) by (simp add: nth_append)
  ultimately have nd: "nondot_before ?p (nat (rfind ?p CHR ''/'' + 1)) (length b)"
    using i(1) by (auto simp: nondot_before_iff)
  have lt: "rfind ?p CHR ''/'' < rfind ?p CHR ''.''" using sep dot i(1) by simp
  show ?thesis
    unfolding splitext_def Let_def using nd lt by (simp add: dot)
qed

lemma compound_ext_shape:
  assumes "e \<in> set compound_exts"
  shows "\<exists>t. e = CHR ''.'' # t \<and> CHR ''.'' \<notin> set t \<and> CHR ''/'' \<notin> set t"
  using assms by (auto simp: compound_exts_def)

text \<open>
  The names the compound branch is for: a stem, one of the six product extensions, and
  a last extension. Both extensions come off.
\<close>

lemma splitexts_product_name:
  assumes i: "i < length b" "b ! i \<noteq> CHR ''.''" "CHR ''/'' \<notin> set (drop i b)"
    and e: "e \<in> set compound_exts"
    and r: "CHR ''.'' \<notin> set r" "CHR ''/'' \<notin> set r"
  shows "splitexts (b @ e @ CHR ''.'' # r) = (b, e @ CHR ''.'' # r)"
proof -
  from e obtain t where t: "e = CHR ''.'' # t" "CHR ''.'' \<notin> set t" "CHR ''/'' \<notin> set t"
    using compound_ext_shape by blast
  have s2: "splitext (b @ e) = (b, e)"
    unfolding t(1) using i t(2,3) by (rule splitext_stem)
  have "splitext ((b @ e) @ CHR ''.'' # r) = (b @ e, CHR ''.'' # r)"
  proof (rule splitext_stem)
    show "i < length (b @ e)" using i(1) by simp
    show "(b @ e) ! i \<noteq> CHR ''.''" using i(1,2) by (simp add: nth_append)
    show "CHR ''/'' \<notin> set (drop i (b @ e))" using i(1,3) t by simp
  qed (rule r)+
  then have s1: "splitext (b @ e @ CHR ''.'' # r) = (b @ e, CHR ''.'' # r)" by simp
  show ?thesis by (simp add: splitexts_def s1 s2 e)
qed

text \<open>
  A name that starts with the product extension has no second extension for
  \<open>splitext\<close>, which takes the leading dot for a hidden file.
\<close>

lemma splitexts_hidden_name: "splitexts ''.idw.tif'' = (''.idw'', ''.tif'')"
  by code_simp



text \<open>
  C9. For every file name the two parts that \<open>splitexts\<close> returns, put together again,
  are the file name, in the compound branch and in the other.
\<close>

theorem splitexts_roundtrip:
  "fst (splitexts filename) @ snd (splitexts filename) = filename"
proof -
  obtain b1 e1 where s1: "splitext filename = (b1, e1)" by (cases "splitext filename")
  obtain b2 e2 where s2: "splitext b1 = (b2, e2)" by (cases "splitext b1")
  from s1 have r1: "filename = b1 @ e1" by (simp add: splitext_roundtrip)
  from s2 have r2: "b1 = b2 @ e2" by (simp add: splitext_roundtrip)
  show ?thesis
  proof (cases "e2 \<in> set compound_exts")
    case True
    with s1 s2 have "splitexts filename = (b2, e2 @ e1)" by (simp add: splitexts_def)
    with r1 r2 show ?thesis by simp
  next
    case False
    with s1 s2 have "splitexts filename = (b1, e1)" by (simp add: splitexts_def)
    with r1 show ?thesis by simp
  qed
qed

subsection \<open>Classification parameters\<close>

lemma params_cases:
  "params c = (if c = PyStr ''1'' then Some (PyInt 1, PyInt 3)
               else if c = PyStr ''2'' then Some (PyInt 1, PyInt 2)
               else if c = PyStr ''3'' then Some (PyInt 5, PyInt 2)
               else if c = PyStr ''4'' then Some (PyInt 10, PyInt 2)
               else None)"
  by (simp add: params_def)

text \<open>
  C3, as the code has it. \<open>class_params\<close> never raises. With both overrides it returns
  them and does not look at the feature; otherwise it returns the preset pair of integers
  (1,3), (1,2), (5,2), (10,2) for the class codes "1", "2", "3", "4"; and for any other
  or missing class, or a feature that cannot be read, the default pair, which is the pair
  of strings ('1', '3'), a supplied override taking the place of its default.
\<close>

theorem class_params_never_raises:
  "class_params feature slope cellsize =
     Inr (if slope \<noteq> PyNone \<and> cellsize \<noteq> PyNone then (slope, cellsize)
          else if getitem feature ''class'' = Inr (PyStr ''1'') then (PyInt 1, PyInt 3)
          else if getitem feature ''class'' = Inr (PyStr ''2'') then (PyInt 1, PyInt 2)
          else if getitem feature ''class'' = Inr (PyStr ''3'') then (PyInt 5, PyInt 2)
          else if getitem feature ''class'' = Inr (PyStr ''4'') then (PyInt 10, PyInt 2)
          else (if slope = PyNone then PyStr ''1'' else slope,
                if cellsize = PyNone then PyStr ''3'' else cellsize))"
  by (cases "getitem feature ''class''")
     (simp_all add: class_params_def class_lookup_def params_cases)

text \<open>
  C3, as the claim has it, fails where it gives the default as the pair of integers
  (1, 3), the notation it uses for the presets: without a feature and without overrides
  the code returns the strings.
\<close>

theorem class_params_default_not_integers:
  "class_params None PyNone PyNone \<noteq> Inr (PyInt 1, PyInt 3)"
  by (simp add: class_params_def class_lookup_def getitem_def)

subsection \<open>File discovery\<close>

text \<open>
  C5. \<open>find_lasfiles\<close> raises when the files matching \<^verbatim>\<open>*.las\<close> in the directory, after
  the overlap filter when it is asked for and there is a site, are none, and returns
  them as they are otherwise; \<open>find_classified_lasfile\<close> does the same for the files
  matching the classification suffix.
\<close>

theorem find_lasfiles_raise_on_empty:
  "find_lasfiles glob check_overlap lasdir site checkoverlap =
     (let found = glob (path_join lasdir ''*.las'');
          kept = (case site of
                    Some s \<Rightarrow> if checkoverlap then check_overlap found s else found
                  | None \<Rightarrow> found)
      in if kept = [] then Inl (Exception ''No LAS files found'') else Inr kept)
   \<and> find_classified_lasfile glob lasdir site ps =
     (let found = glob (path_join lasdir
                   ((case site of None \<Rightarrow> [] | Some s \<Rightarrow> Basename s @ ''_'')
                    @ class_suffix (fst ps) (snd ps) []))
      in if found = [] then Inl (Exception ''No classified LAS files found'') else Inr found)"
  by (simp add: find_lasfiles_def find_classified_lasfile_def Let_def)

subsection \<open>The mosaic\<close>

lemma join_first: "\<exists>args. join sep (x # xs) = x @ args"
  by (cases xs) simp_all

lemma create_vrt_skip:
  "fout \<in> files w \<Longrightarrow> \<not> overwrite \<Longrightarrow>
   create_vrt run get_vector_bounds str w filenames fout site overwrite verbose = (Inr fout, w)"
  by (simp add: create_vrt_def)

lemma create_vrt_build:
  assumes "fout \<notin> files w \<or> overwrite"
  shows "create_vrt run get_vector_bounds str w filenames fout (s0 # rest) overwrite verbose =
     (Inr fout,
      os_system run
        (join '' '' ([''gdalbuildvrt''] @ (if \<not> verbose then [''-q''] else []) @
           (if s0 \<noteq> None
            then [''-te '' @ join '' '' (map str (get_vector_bounds (s0 # rest)))] else []) @
           [fout] @ filenames))
        (if verbose
         then w\<lparr>stdout := stdout w @
                [''Combining '' @ str_nat (length filenames) @ '' files into '' @ fout]\<rparr>
         else w))"
  using assms by (auto simp: create_vrt_def Let_def)

text \<open>
  C7. When the output path exists and overwrite is not set, \<open>create_vrt\<close> returns the
  path and leaves the files, the commands issued and the output as they were. So a
  command is issued only when the target is absent or overwrite is set, and then (for a
  site sequence that is not empty) it is exactly one gdalbuildvrt command.
\<close>

theorem create_vrt_existing_target:
  "(fout \<in> files w \<and> \<not> overwrite \<longrightarrow>
      create_vrt run get_vector_bounds str w filenames fout site overwrite verbose = (Inr fout, w))
   \<and> (commands (snd (create_vrt run get_vector_bounds str w filenames fout site overwrite verbose))
         \<noteq> commands w \<longrightarrow> fout \<notin> files w \<or> overwrite)
   \<and> ((fout \<notin> files w \<or> overwrite) \<and> site \<noteq> [] \<longrightarrow>
        (\<exists>args. commands (snd (create_vrt run get_vector_bounds str w filenames fout site overwrite verbose))
           = commands w @ [''gdalbuildvrt'' @ args]))"
proof (intro conjI impI)
  assume "fout \<in> files w \<and> \<not> overwrite"
  then show "create_vrt run get_vector_bounds str w filenames fout site overwrite verbose = (Inr fout, w)"
    by (simp add: create_vrt_skip)
next
  assume c: "commands (snd (create_vrt run get_vector_bounds str w filenames fout site overwrite verbose)) \<noteq> commands w"
  show "fout \<notin> files w \<or> overwrite"
  proof (rule ccontr)
    assume "\<not> (fout \<notin> files w \<or> overwrite)"
    then have "create_vrt run get_vector_bounds str w filenames fout site overwrite verbose = (Inr fout, w)"
      by (simp add: create_vrt_skip)
    with c show False by simp
  qed
next
  assume a: "(fout \<notin> files w \<or> overwrite) \<and> site \<noteq> []"
  then obtain s0 rest where s: "site = s0 # rest" by (cases site) auto
  from a have b: "fout \<notin> files w \<or> overwrite" by simp
  obtain args where "join '' '' ([''gdalbuildvrt''] @ (if \<not> verbose then [''-q''] else []) @
           (if s0 \<noteq> None
            then [''-te '' @ join '' '' (map str (get_vector_bounds (s0 # rest)))] else []) @
           [fout] @ filenames) = ''gdalbuildvrt'' @ args"
    using join_first [of "'' ''" "''gdalbuildvrt''"] by auto
  then show "\<exists>args. commands (snd (create_vrt run get_vector_bounds str w filenames fout site overwrite verbose))
           = commands w @ [''gdalbuildvrt'' @ args]"
    unfolding s create_vrt_build [OF b] by (simp add: os_system_def)
qed

theorem create_vrt_existing_target_witness:
  "create_vrt (\<lambda>c fs. fs) (\<lambda>s. []) (\<lambda>b::nat. []) \<lparr>files = {''out.vrt''}, commands = [], stdout = []\<rparr>
      [''a.tif''] ''out.vrt'' [None :: unit option] False False
    = (Inr ''out.vrt'', \<lparr>files = {''out.vrt''}, commands = [], stdout = []\<rparr>)
   \<and> commands (snd (create_vrt (\<lambda>c fs. fs) (\<lambda>s. []) (\<lambda>b::nat. []) \<lparr>files = {}, commands = [], stdout = []\<rparr>
      [''a.tif''] ''out.vrt'' [None :: unit option] False False)) = [''gdalbuildvrt -q out.vrt a.tif'']"
  using create_vrt_existing_target [of "''out.vrt''" "\<lparr>files = {''out.vrt''}, commands = [], stdout = []\<rparr>" False
     "\<lambda>c fs. fs" "\<lambda>s. []" "\<lambda>b::nat. []" "[''a.tif'']" "[None :: unit option]" False]
    create_vrt_existing_target [of "''out.vrt''" "\<lparr>files = {}, commands = [], stdout = []\<rparr>" False
     "\<lambda>c fs. fs" "\<lambda>s. []" "\<lambda>b::nat. []" "[''a.tif'']" "[None :: unit option]" False]
  by (simp add: create_vrt_def os_system_def)

subsection \<open>Arrays\<close>

lemma set_where_true:
  "set (where_true m) = {(i, j). i < nrows m \<and> j < ncols m \<and> cell m i j}"
  by (auto simp: where_true_def)

lemma distinct_where_true: "distinct (where_true m)"
  by (simp add: where_true_def distinct_product)

lemma where_true_cong:
  assumes "nrows m = nrows m'" "ncols m = ncols m'"
    and "\<And>i j. i < nrows m \<Longrightarrow> j < ncols m \<Longrightarrow> cell m i j = cell m' i j"
  shows "where_true m = where_true m'"
  unfolding where_true_def using assms
  by (auto intro!: filter_cong)

lemma in_bounds_iff: "in_bounds a locs \<longleftrightarrow> (\<forall>(i, j) \<in> set locs. i < nrows a \<and> j < ncols a)"
  by (simp add: in_bounds_def list_all_iff)

lemma in_bounds_where_true:
  "nrows m \<le> nrows a \<Longrightarrow> ncols m \<le> ncols a \<Longrightarrow> in_bounds a (where_true m)"
  by (auto simp: in_bounds_iff set_where_true)

lemma put_shape [simp]: "nrows (put a locs vs) = nrows a" "ncols (put a locs vs) = ncols a"
  by (induction a locs vs rule: put.induct) simp_all

lemma put_map:
  "cell (put a locs (map (\<lambda>(i, j). f i j) locs)) i j =
     (if (i, j) \<in> set locs then f i j else cell a i j)"
  by (induction locs arbitrary: a) (auto split: if_splits)

lemma put_replicate:
  "cell (put a locs (replicate (length locs) v)) i j =
     (if (i, j) \<in> set locs then v else cell a i j)"
proof -
  have "replicate (length locs) v = map (\<lambda>(i, j). v) locs"
    by (induction locs) auto
  then show ?thesis using put_map [of a locs "\<lambda>i j. v" i j] by simp
qed

lemma put_other: "(i, j) \<notin> set locs \<Longrightarrow> cell (put a locs vs) i j = cell a i j"
  by (induction a locs vs rule: put.induct) (auto split: if_splits)

lemma put_zip:
  assumes "distinct locs" "length vs = length locs" "(i, j) \<in> set locs"
  shows "map_of (zip locs vs) (i, j) = Some (cell (put a locs vs) i j)"
  using assms
proof (induction a locs vs rule: put.induct)
  case (1 a i' j' locs v vs)
  show ?case
  proof (cases "(i, j) = (i', j')")
    case True
    with 1 show ?thesis by (simp add: put_other)
  next
    case False
    with 1 show ?thesis by auto
  qed
qed auto

lemma clip_to_smallest_shape:
  assumes "clip_to_smallest d t = (d', t')"
  shows "nrows d' = min (nrows d) (nrows t)" "ncols d' = min (ncols d) (ncols t)"
    "nrows t' = min (nrows d) (nrows t)" "ncols t' = min (ncols d) (ncols t)"
    "cell d' = cell d" "cell t' = cell t"
  using assms
  by (auto simp: clip_to_smallest_def shape_def slice_rows_def slice_cols_def Let_def
           split: if_splits)


lemma assign_scalar_where:
  assumes "nrows m = nrows a" "ncols m = ncols a"
  shows "\<exists>b. assign_scalar a (where_true m) v = Inr b \<and> nrows b = nrows a \<and> ncols b = ncols a
           \<and> (\<forall>i<nrows a. \<forall>j<ncols a. cell b i j = (if cell m i j then v else cell a i j))"
proof -
  have "in_bounds a (where_true m)" using assms by (simp add: in_bounds_where_true)
  then have "assign_scalar a (where_true m) v
               = Inr (put a (where_true m) (replicate (length (where_true m)) v))"
    by (simp add: assign_scalar_def)
  moreover have "\<forall>i<nrows a. \<forall>j<ncols a.
      cell (put a (where_true m) (replicate (length (where_true m)) v)) i j
        = (if cell m i j then v else cell a i j)"
    using assms by (simp add: put_replicate set_where_true)
  ultimately show ?thesis by simp
qed

lemma create_chm_cells:
  assumes T: "store dtm = Some T" and S: "store dsm = Some S"
  shows "\<exists>out. create_chm sub eq store dtm dsm chm = Inr out
           \<and> Filename out = chm
           \<and> extent out = shape (Read T)
           \<and> NoData out = NoDataValue T
           \<and> nrows (data out) = min (nrows (Read S)) (nrows (Read T))
           \<and> ncols (data out) = min (ncols (Read S)) (ncols (Read T))
           \<and> (\<forall>i<nrows (data out). \<forall>j<ncols (data out).
                 cell (data out) i j =
                   (if eq (cell (Read T) i j) (NoDataValue T) \<or> eq (cell (Read S) i j) (NoDataValue S)
                    then NoDataValue T
                    else sub (cell (Read S) i j) (cell (Read T) i j)))"
proof -
  obtain d t where clip: "clip_to_smallest (Read S) (Read T) = (d, t)"
    by (cases "clip_to_smallest (Read S) (Read T)")
  note c = clip_to_smallest_shape [OF clip]
  let ?r = "min (nrows (Read S)) (nrows (Read T))"
  let ?c = "min (ncols (Read S)) (ncols (Read T))"
  define arr0 where "arr0 = \<lparr>nrows = nrows d, ncols = ncols d,
                               cell = (\<lambda>i j. sub (cell d i j) (cell t i j))\<rparr>"
  have sub: "subtract sub d t = Inr arr0"
    using c by (simp add: subtract_def shape_def arr0_def)
  have s0: "nrows arr0 = ?r" "ncols arr0 = ?c" using c by (simp_all add: arr0_def)
  have "nrows (eq_scalar eq t (NoDataValue T)) = nrows arr0"
       "ncols (eq_scalar eq t (NoDataValue T)) = ncols arr0"
    using c s0 by (simp_all add: eq_scalar_def)
  from assign_scalar_where [OF this, of "NoDataValue T"]
  obtain arr1 where a1: "assign_scalar arr0 (where_true (eq_scalar eq t (NoDataValue T))) (NoDataValue T) = Inr arr1"
    and s1: "nrows arr1 = ?r" "ncols arr1 = ?c"
    and c1: "\<forall>i<?r. \<forall>j<?c. cell arr1 i j =
               (if eq (cell (Read T) i j) (NoDataValue T) then NoDataValue T
                else sub (cell (Read S) i j) (cell (Read T) i j))"
    using s0 c by (auto simp: eq_scalar_def arr0_def)
  have m1: "mask_assign arr0 (eq_scalar eq t (NoDataValue T)) (NoDataValue T) = Inr arr1"
    using a1 c s0 by (simp add: mask_assign_def shape_def eq_scalar_def)
  have "nrows (eq_scalar eq d (NoDataValue S)) = nrows arr1"
       "ncols (eq_scalar eq d (NoDataValue S)) = ncols arr1"
    using c s1 by (simp_all add: eq_scalar_def)
  from assign_scalar_where [OF this, of "NoDataValue T"]
  obtain arr2 where a2: "assign_scalar arr1 (where_true (eq_scalar eq d (NoDataValue S))) (NoDataValue T) = Inr arr2"
    and s2: "nrows arr2 = ?r" "ncols arr2 = ?c"
    and c2: "\<forall>i<?r. \<forall>j<?c. cell arr2 i j =
               (if eq (cell (Read S) i j) (NoDataValue S) then NoDataValue T else cell arr1 i j)"
    using s1 c by (auto simp: eq_scalar_def)
  have "create_chm sub eq store dtm dsm chm =
          Inr \<lparr>Filename = chm, extent = shape (Read T), NoData = NoDataValue T,
               data = arr2, clipfile = None\<rparr>"
    by (simp add: create_chm_def GeoImage_def T S clip sub m1 a2)
  moreover have "\<forall>i<?r. \<forall>j<?c. cell arr2 i j =
                   (if eq (cell (Read T) i j) (NoDataValue T) \<or> eq (cell (Read S) i j) (NoDataValue S)
                    then NoDataValue T
                    else sub (cell (Read S) i j) (cell (Read T) i j))"
    using c1 c2 by simp
  ultimately show ?thesis using s2 by simp
qed


lemma first_valid_valid: "\<not> eq v nd \<Longrightarrow> first_valid eq nd v ws = v"
  by (cases ws) simp_all

text \<open>For three rasters: A where A is valid, else B where B is valid, else C.\<close>

lemma first_valid_three:
  "first_valid eq nd a [b, c] = (if \<not> eq a nd then a else if \<not> eq b nd then b else c)"
  by simp

lemma take_at_where:
  assumes "nrows m \<le> nrows a" "ncols m \<le> ncols a"
  shows "take_at a (where_true m) = Inr (map (\<lambda>(i, j). cell a i j) (where_true m))"
  using assms by (simp add: take_at_def in_bounds_where_true)

lemma fill_from_cells:
  assumes "\<forall>B \<in> set imgs. nrows arr \<le> nrows (Read B) \<and> ncols arr \<le> ncols (Read B)"
  shows "\<exists>out. fill_from eq nd arr imgs = Inr out \<and> nrows out = nrows arr \<and> ncols out = ncols arr
           \<and> (\<forall>i<nrows arr. \<forall>j<ncols arr.
                 cell out i j = first_valid eq nd (cell arr i j) (map (\<lambda>B. cell (Read B) i j) imgs))"
  using assms
proof (induction imgs arbitrary: arr)
  case Nil
  then show ?case by simp
next
  case (Cons B imgs)
  let ?locs = "where_true (eq_scalar eq arr nd)"
  let ?vs = "map (\<lambda>(i, j). cell (Read B) i j) ?locs"
  let ?arr' = "put arr ?locs ?vs"
  have t: "take_at (Read B) ?locs = Inr ?vs"
    using Cons.prems by (intro take_at_where) (simp_all add: eq_scalar_def)
  have a: "assign_at arr ?locs ?vs = Inr ?arr'"
    by (simp add: assign_at_def in_bounds_where_true eq_scalar_def)
  have step: "fill_from eq nd arr (B # imgs) = fill_from eq nd ?arr' imgs"
    by (simp add: Let_def t a del: put.simps)
  have "\<forall>B \<in> set imgs. nrows ?arr' \<le> nrows (Read B) \<and> ncols ?arr' \<le> ncols (Read B)"
    using Cons.prems by simp
  from Cons.IH [OF this] obtain out where
    out: "fill_from eq nd ?arr' imgs = Inr out" "nrows out = nrows arr" "ncols out = ncols arr"
    and cells: "\<forall>i<nrows arr. \<forall>j<ncols arr.
        cell out i j = first_valid eq nd (cell ?arr' i j) (map (\<lambda>B. cell (Read B) i j) imgs)"
    by auto
  have c': "\<And>i j. i < nrows arr \<Longrightarrow> j < ncols arr \<Longrightarrow>
      cell ?arr' i j = (if eq (cell arr i j) nd then cell (Read B) i j else cell arr i j)"
    by (simp add: put_map set_where_true eq_scalar_def)
  have "\<forall>i<nrows arr. \<forall>j<ncols arr.
      cell out i j = first_valid eq nd (cell arr i j) (map (\<lambda>B. cell (Read B) i j) (B # imgs))"
  proof (intro allI impI)
    fix i j assume ij: "i < nrows arr" "j < ncols arr"
    show "cell out i j = first_valid eq nd (cell arr i j) (map (\<lambda>B. cell (Read B) i j) (B # imgs))"
      using cells ij c' [OF ij] by (simp add: first_valid_valid)
  qed
  with out step show ?case by simp
qed

lemma assign_at_other:
  assumes "assign_at a locs vs = Inr b"
  shows "nrows b = nrows a" "ncols b = ncols a" "(i, j) \<notin> set locs \<Longrightarrow> cell b i j = cell a i j"
  using assms by (auto simp: assign_at_def put_other split: if_splits)

text \<open>The array before interpolation agrees with the merged raster inside the shape.\<close>

lemma gap_fill_cells:
  fixes eq :: "'a \<Rightarrow> 'a \<Rightarrow> bool" and A :: "'a geoimage" and rest :: "'a geoimage list"
  defines "M \<equiv> merged eq A rest"
  defines "nd \<equiv> NoDataValue A"
  defines "gl \<equiv> where_true (ne_scalar eq M nd)"
  defines "bl \<equiv> where_true (eq_scalar eq M nd)"
  assumes files: "filenames \<noteq> []" "GeoImages store (sort filenames) = Inr (A # rest)"
    and shapes: "\<forall>B \<in> set rest. nrows (Read A) \<le> nrows (Read B) \<and> ncols (Read A) \<le> ncols (Read B)"
    and interp: "griddata gl (map (\<lambda>(i, j). cell M i j) gl) bl interpolation = Inr r"
                "length r = length bl"
  shows "\<exists>out. gap_fill eq griddata store filenames fout site interpolation = Inr out
           \<and> Filename out = fout \<and> NoData out = nd
           \<and> nrows (data out) = nrows (Read A) \<and> ncols (data out) = ncols (Read A)
           \<and> (\<forall>i<nrows (Read A). \<forall>j<ncols (Read A).
                 (\<not> eq (cell M i j) nd \<longrightarrow> cell (data out) i j = cell M i j) \<and>
                 (eq (cell M i j) nd \<longrightarrow> map_of (zip bl r) (i, j) = Some (cell (data out) i j)))"
proof -
  from fill_from_cells [OF shapes, of eq nd] obtain arr where
    arr: "fill_from eq nd (Read A) rest = Inr arr" "nrows arr = nrows (Read A)" "ncols arr = ncols (Read A)"
    and cells: "\<forall>i<nrows (Read A). \<forall>j<ncols (Read A). cell arr i j = cell M i j"
    by (auto simp: M_def merged_def nd_def)
  have sM: "nrows M = nrows (Read A)" "ncols M = ncols (Read A)" by (simp_all add: M_def merged_def)
  have gl: "where_true (ne_scalar eq arr nd) = gl"
    unfolding gl_def using arr(2,3) sM cells by (intro where_true_cong) (simp_all add: ne_scalar_def)
  have bl: "where_true (eq_scalar eq arr nd) = bl"
    unfolding bl_def using arr(2,3) sM cells by (intro where_true_cong) (simp_all add: eq_scalar_def)
  have "take_at arr gl = Inr (map (\<lambda>(i, j). cell arr i j) gl)"
    unfolding gl [symmetric] by (intro take_at_where) (simp_all add: ne_scalar_def)
  moreover have "map (\<lambda>(i, j). cell arr i j) gl = map (\<lambda>(i, j). cell M i j) gl"
    using cells sM by (intro map_cong) (auto simp: gl_def set_where_true ne_scalar_def)
  ultimately have tk: "take_at arr gl = Inr (map (\<lambda>(i, j). cell M i j) gl)" by simp
  have ib: "in_bounds arr bl" unfolding bl [symmetric]
    by (intro in_bounds_where_true) (simp_all add: eq_scalar_def)
  then have asg: "assign_at arr bl r = Inr (put arr bl r)"
    using interp(2) by (simp add: assign_at_def)
  let ?out = "\<lparr>Filename = fout, extent = shape (Read A), NoData = nd, data = put arr bl r,
               clipfile = (case site of None \<Rightarrow> None
                           | Some s \<Rightarrow> (let parts = splitexts fout
                                        in Some (fst parts @ ''_clip'' @ snd parts)))\<rparr>"
  have res: "gap_fill eq griddata store filenames fout site interpolation = Inr ?out"
    using files by (simp add: gap_fill_def nd_def [symmetric] arr(1) gl bl tk interp(1) asg)
  have dist: "distinct bl" by (simp add: bl_def distinct_where_true)
  have "\<forall>i<nrows (Read A). \<forall>j<ncols (Read A).
                 (\<not> eq (cell M i j) nd \<longrightarrow> cell (put arr bl r) i j = cell M i j) \<and>
                 (eq (cell M i j) nd \<longrightarrow> map_of (zip bl r) (i, j) = Some (cell (put arr bl r) i j))"
  proof (intro allI impI conjI)
    fix i j assume ij: "i < nrows (Read A)" "j < ncols (Read A)"
    { assume "\<not> eq (cell M i j) nd"
      then have "(i, j) \<notin> set bl" by (simp add: bl_def set_where_true eq_scalar_def)
      then show "cell (put arr bl r) i j = cell M i j" using cells ij by (simp add: put_other) }
    { assume "eq (cell M i j) nd"
      then have "(i, j) \<in> set bl" using ij sM by (simp add: bl_def set_where_true eq_scalar_def)
      with dist interp(2) show "map_of (zip bl r) (i, j) = Some (cell (put arr bl r) i j)"
        by (intro put_zip) }
  qed
  with res arr(2,3) show ?thesis by simp
qed

subsection \<open>Canopy height\<close>

text \<open>
  C1. For a DTM and a DSM raster of one shape, \<open>create_chm\<close> writes an array of that
  shape whose value at each cell is the DSM value minus the DTM value, except that each
  cell where the DTM equals the DTM's nodata value, and each cell where the DSM equals
  the DSM's nodata value, holds the nodata value of the output; and that is the nodata
  value of the DTM.
\<close>

theorem create_chm_equal_extent:
  assumes "store dtm = Some T" and "store dsm = Some S"
    and "shape (Read T) = shape (Read S)"
  shows "\<exists>out. create_chm sub eq store dtm dsm chm = Inr out
           \<and> NoData out = NoDataValue T
           \<and> shape (data out) = shape (Read T)
           \<and> (\<forall>i<nrows (Read T). \<forall>j<ncols (Read T).
                 cell (data out) i j =
                   (if eq (cell (Read T) i j) (NoDataValue T) \<or> eq (cell (Read S) i j) (NoDataValue S)
                    then NoData out
                    else sub (cell (Read S) i j) (cell (Read T) i j)))"
proof -
  from create_chm_cells [OF assms(1,2), of sub eq chm] obtain out where
    out: "create_chm sub eq store dtm dsm chm = Inr out" "NoData out = NoDataValue T"
      "nrows (data out) = min (nrows (Read S)) (nrows (Read T))"
      "ncols (data out) = min (ncols (Read S)) (ncols (Read T))"
    and cells: "\<forall>i<nrows (data out). \<forall>j<ncols (data out).
                 cell (data out) i j =
                   (if eq (cell (Read T) i j) (NoDataValue T) \<or> eq (cell (Read S) i j) (NoDataValue S)
                    then NoDataValue T
                    else sub (cell (Read S) i j) (cell (Read T) i j))"
    by blast
  from assms(3) have eqs: "nrows (Read S) = nrows (Read T)" "ncols (Read S) = ncols (Read T)"
    by (simp_all add: shape_def)
  have "shape (data out) = shape (Read T)" using out(3,4) eqs by (simp add: shape_def)
  moreover have "\<forall>i<nrows (Read T). \<forall>j<ncols (Read T).
                 cell (data out) i j =
                   (if eq (cell (Read T) i j) (NoDataValue T) \<or> eq (cell (Read S) i j) (NoDataValue S)
                    then NoData out
                    else sub (cell (Read S) i j) (cell (Read T) i j))"
    using cells out(2,3,4) eqs by simp
  ultimately show ?thesis using out(1,2) by blast
qed

theorem create_chm_equal_extent_witness:
  "\<exists>out. create_chm (-) (=) [''dtm.tif'' \<mapsto> \<lparr>NoDataValue = - 9999, Read = array [[10, - 9999], [12, 13]]\<rparr>,
                               ''dsm.tif'' \<mapsto> \<lparr>NoDataValue = - 1, Read = array [[15, 20], [- 1, 13 :: int]]\<rparr>]
            ''dtm.tif'' ''dsm.tif'' ''chm.tif'' = Inr out
     \<and> NoData out = - 9999
     \<and> shape (data out) = (2, 2)
     \<and> cell (data out) 0 0 = 5 \<and> cell (data out) 0 1 = - 9999
     \<and> cell (data out) 1 0 = - 9999 \<and> cell (data out) 1 1 = 0"
proof -
  let ?T = "\<lparr>NoDataValue = - 9999, Read = array [[10, - 9999], [12, 13 :: int]]\<rparr>"
  let ?S = "\<lparr>NoDataValue = - 1, Read = array [[15, 20], [- 1, 13 :: int]]\<rparr>"
  let ?store = "[''dtm.tif'' \<mapsto> ?T, ''dsm.tif'' \<mapsto> ?S]"
  have 1: "?store ''dtm.tif'' = Some ?T" by simp
  have 2: "?store ''dsm.tif'' = Some ?S" by simp
  have 3: "shape (Read ?T) = shape (Read ?S)" by (simp add: shape_def array_def)
  from create_chm_equal_extent [where store = ?store and dtm = "''dtm.tif''" and dsm = "''dsm.tif''"
      and sub = "(-)" and eq = "(=)" and chm = "''chm.tif''", OF 1 2 3]
  obtain out where out: "create_chm (-) (=) ?store ''dtm.tif'' ''dsm.tif'' ''chm.tif'' = Inr out"
    "NoData out = - 9999" "shape (data out) = (2, 2)"
    and cells: "\<forall>i<2. \<forall>j<2. cell (data out) i j =
        (if cell (Read ?T) i j = - 9999 \<or> cell (Read ?S) i j = - 1 then - 9999
         else cell (Read ?S) i j - cell (Read ?T) i j)"
    by (auto simp: shape_def array_def)
  have "cell (data out) 0 0 = 5" using cells [rule_format, of 0 0] by (simp add: array_def)
  moreover have "cell (data out) 0 1 = - 9999" using cells [rule_format, of 0 1] by (simp add: array_def)
  moreover have "cell (data out) 1 0 = - 9999" using cells [rule_format, of 1 0] by (simp add: array_def)
  moreover have "cell (data out) 1 1 = 0" using cells [rule_format, of 1 1] by (simp add: array_def)
  ultimately show ?thesis using out by blast
qed




subsection \<open>Gap filling\<close>

lemma GeoImages_map: "map store fs = map Some imgs \<Longrightarrow> GeoImages store fs = Inr imgs"
  by (induction fs arbitrary: imgs) (auto simp: GeoImage_def)

text \<open>
  C2, as the code has it. For rasters of one shape, \<open>A\<close> the first and \<open>rest\<close> the
  others in the ascending lexical order of their file names: \<open>gap_fill\<close> starts from
  \<open>A\<close> and lets each later raster, in that order, fill exactly the cells that are
  still equal to the nodata value of \<open>A\<close>, the only nodata value it compares with. So
  before the interpolation each cell holds the first value that differs from the nodata
  value of \<open>A\<close> (\<open>first_valid\<close>: for three rasters, A where A differs from it, else B
  where B differs from it, else C). In the array written, a cell that differs from it
  then keeps that value, and a cell that is still equal to it gets the value that the
  interpolation returns for it.
\<close>

theorem gap_fill_first_writer_wins:
  fixes eq :: "'a \<Rightarrow> 'a \<Rightarrow> bool" and A :: "'a geoimage" and rest :: "'a geoimage list"
  defines "M \<equiv> merged eq A rest"
  defines "nd \<equiv> NoDataValue A"
  defines "goodlocs \<equiv> where_true (ne_scalar eq M nd)"
  defines "badlocs \<equiv> where_true (eq_scalar eq M nd)"
  assumes files: "map store (sort filenames) = map Some (A # rest)"
    and shapes: "\<forall>B \<in> set rest. shape (Read B) = shape (Read A)"
    and interp: "griddata goodlocs (map (\<lambda>(i, j). cell M i j) goodlocs) badlocs interpolation = Inr r"
                "length r = length badlocs"
  shows "\<exists>out. gap_fill eq griddata store filenames fout site interpolation = Inr out
           \<and> NoData out = nd
           \<and> shape (data out) = shape (Read A)
           \<and> (\<forall>i<nrows (Read A). \<forall>j<ncols (Read A).
                 cell M i j = first_valid eq nd (cell (Read A) i j) (map (\<lambda>B. cell (Read B) i j) rest) \<and>
                 (\<not> eq (cell M i j) nd \<longrightarrow> cell (data out) i j = cell M i j) \<and>
                 (eq (cell M i j) nd \<longrightarrow> map_of (zip badlocs r) (i, j) = Some (cell (data out) i j)))"
proof -
  from files have ne: "filenames \<noteq> []" by auto
  from files have g: "GeoImages store (sort filenames) = Inr (A # rest)" by (rule GeoImages_map)
  from shapes have sh: "\<forall>B \<in> set rest. nrows (Read A) \<le> nrows (Read B) \<and> ncols (Read A) \<le> ncols (Read B)"
    by (simp add: shape_def)
  from gap_fill_cells [OF ne g sh, of griddata eq interpolation r fout site] interp
  obtain out where "gap_fill eq griddata store filenames fout site interpolation = Inr out"
    "NoData out = nd" "nrows (data out) = nrows (Read A)" "ncols (data out) = ncols (Read A)"
    "\<forall>i<nrows (Read A). \<forall>j<ncols (Read A).
                 (\<not> eq (cell M i j) nd \<longrightarrow> cell (data out) i j = cell M i j) \<and>
                 (eq (cell M i j) nd \<longrightarrow> map_of (zip badlocs r) (i, j) = Some (cell (data out) i j))"
    unfolding M_def nd_def goodlocs_def badlocs_def by blast
  moreover have "\<And>i j. cell M i j = first_valid eq nd (cell (Read A) i j) (map (\<lambda>B. cell (Read B) i j) rest)"
    by (simp add: M_def merged_def nd_def)
  ultimately show ?thesis by (simp add: shape_def)
qed

lemma map_of_zip_replicate:
  "map_of (zip xs (replicate n c)) k = Some v \<Longrightarrow> v = c"
  by (auto dest!: map_of_SomeD simp: set_zip)

theorem gap_fill_first_writer_wins_witness:
  "\<exists>out. gap_fill (=) (\<lambda>g v b m. Inr (replicate (length b) 7))
      [''r1.tif'' \<mapsto> \<lparr>NoDataValue = 0, Read = array [[1, 0], [0, 0 :: int]]\<rparr>,
       ''r2.tif'' \<mapsto> \<lparr>NoDataValue = 0, Read = array [[9, 2], [0, 0]]\<rparr>,
       ''r3.tif'' \<mapsto> \<lparr>NoDataValue = 0, Read = array [[9, 9], [3, 0]]\<rparr>]
      [''r3.tif'', ''r1.tif'', ''r2.tif''] ''out.tif'' (None :: unit option) ''nearest'' = Inr out
    \<and> cell (data out) 0 0 = 1 \<and> cell (data out) 0 1 = 2
    \<and> cell (data out) 1 0 = 3 \<and> cell (data out) 1 1 = 7"
proof -
  let ?A = "\<lparr>NoDataValue = 0, Read = array [[1, 0], [0, 0 :: int]]\<rparr>"
  let ?B = "\<lparr>NoDataValue = 0, Read = array [[9, 2], [0, 0 :: int]]\<rparr>"
  let ?C = "\<lparr>NoDataValue = 0, Read = array [[9, 9], [3, 0 :: int]]\<rparr>"
  let ?store = "[''r1.tif'' \<mapsto> ?A, ''r2.tif'' \<mapsto> ?B, ''r3.tif'' \<mapsto> ?C]"
  let ?g = "\<lambda>(g :: (nat \<times> nat) list) (v :: int list) (b :: (nat \<times> nat) list) (m :: string).
              Inr (replicate (length b) (7 :: int)) :: error + int list"
  let ?bl = "where_true (eq_scalar (=) (merged (=) ?A [?B, ?C]) (NoDataValue ?A))"
  have srt: "sort [''r3.tif'', ''r1.tif'', ''r2.tif''] = [''r1.tif'', ''r2.tif'', ''r3.tif'']"
    by code_simp
  have 1: "map ?store (sort [''r3.tif'', ''r1.tif'', ''r2.tif'']) = map Some (?A # [?B, ?C])"
    unfolding srt by simp
  have 2: "\<forall>B \<in> set [?B, ?C]. shape (Read B) = shape (Read ?A)"
    by (simp add: shape_def array_def)
  have 3: "?g (where_true (ne_scalar (=) (merged (=) ?A [?B, ?C]) (NoDataValue ?A)))
              (map (\<lambda>(i, j). cell (merged (=) ?A [?B, ?C]) i j)
                 (where_true (ne_scalar (=) (merged (=) ?A [?B, ?C]) (NoDataValue ?A))))
              ?bl ''nearest'' = Inr (replicate (length ?bl) 7)"
    by simp
  have 4: "length (replicate (length ?bl) (7 :: int)) = length ?bl" by simp
  let ?M = "merged (=) ?A [?B, ?C]"
  from gap_fill_first_writer_wins [where store = ?store and griddata = ?g and eq = "(=)"
      and fout = "''out.tif''" and site = "None :: unit option", OF 1 2 3 4]
  obtain out where out: "gap_fill (=) ?g ?store [''r3.tif'', ''r1.tif'', ''r2.tif''] ''out.tif''
        (None :: unit option) ''nearest'' = Inr out"
    and cells: "\<forall>i<nrows (Read ?A). \<forall>j<ncols (Read ?A).
        cell ?M i j = first_valid (=) (NoDataValue ?A) (cell (Read ?A) i j)
                        (map (\<lambda>B. cell (Read B) i j) [?B, ?C]) \<and>
        (cell ?M i j \<noteq> NoDataValue ?A \<longrightarrow> cell (data out) i j = cell ?M i j) \<and>
        (cell ?M i j = NoDataValue ?A \<longrightarrow>
           map_of (zip ?bl (replicate (length ?bl) 7)) (i, j) = Some (cell (data out) i j))"
    by blast
  have "cell (data out) 0 0 = 1" using cells [rule_format, of 0 0] by (simp add: array_def)
  moreover have "cell (data out) 0 1 = 2" using cells [rule_format, of 0 1] by (simp add: array_def)
  moreover have "cell (data out) 1 0 = 3" using cells [rule_format, of 1 0] by (simp add: array_def)
  moreover have "cell (data out) 1 1 = 7"
  proof -
    have "map_of (zip ?bl (replicate (length ?bl) 7)) (1, 1) = Some (cell (data out) 1 1)"
      using cells [rule_format, of 1 1] by (simp add: array_def)
    then show ?thesis by (rule map_of_zip_replicate)
  qed
  ultimately show ?thesis using out by blast
qed

text \<open>
  C2, as the claim has it, fails when "valid" is each raster's own: three rasters with
  disjoint nodata footprints, A = [0, 7, 5] with nodata 0, B = [0, 9, 1] and
  C = [8, 1, 9] with nodata 9. In the first cell A is nodata and B is valid with the
  value 0, which the claim gives as the result; the code takes the 0 for nodata still
  and overwrites it with the 8 of C.
\<close>

theorem gap_fill_own_nodata_overwritten:
  "map_sum id (value_at 0 0)
     (gap_fill (=) (fill_with 7)
        [''r1.tif'' \<mapsto> \<lparr>NoDataValue = 0, Read = array [[0, 7, 5 :: int]]\<rparr>,
         ''r2.tif'' \<mapsto> \<lparr>NoDataValue = 9, Read = array [[0, 9, 1]]\<rparr>,
         ''r3.tif'' \<mapsto> \<lparr>NoDataValue = 9, Read = array [[8, 1, 9]]\<rparr>]
        [''r3.tif'', ''r1.tif'', ''r2.tif''] ''out.tif'' (None :: unit option) ''nearest'') = Inr 8
   \<and> first_own_valid (=)
        [\<lparr>NoDataValue = 0, Read = array [[0, 7, 5 :: int]]\<rparr>,
         \<lparr>NoDataValue = 9, Read = array [[0, 9, 1]]\<rparr>,
         \<lparr>NoDataValue = 9, Read = array [[8, 1, 9]]\<rparr>] 0 0 = Some 0"
proof -
  let ?A = "\<lparr>NoDataValue = 0, Read = array [[0, 7, 5 :: int]]\<rparr>"
  let ?B = "\<lparr>NoDataValue = 9, Read = array [[0, 9, 1 :: int]]\<rparr>"
  let ?C = "\<lparr>NoDataValue = 9, Read = array [[8, 1, 9 :: int]]\<rparr>"
  let ?store = "[''r1.tif'' \<mapsto> ?A, ''r2.tif'' \<mapsto> ?B, ''r3.tif'' \<mapsto> ?C]"
  let ?fs = "[''r3.tif'', ''r1.tif'', ''r2.tif'']"
  let ?M = "merged (=) ?A [?B, ?C]"
  let ?gl = "where_true (ne_scalar (=) ?M (NoDataValue ?A))"
  let ?bl = "where_true (eq_scalar (=) ?M (NoDataValue ?A))"
  have srt: "sort ?fs = [''r1.tif'', ''r2.tif'', ''r3.tif'']" by code_simp
  have 0: "?fs \<noteq> []" by simp
  have 1: "GeoImages ?store (sort ?fs) = Inr (?A # [?B, ?C])"
    unfolding srt by (simp add: GeoImage_def)
  have 2: "\<forall>B \<in> set [?B, ?C]. nrows (Read ?A) \<le> nrows (Read B) \<and> ncols (Read ?A) \<le> ncols (Read B)"
    by (simp add: array_def)
  have 3: "fill_with (7 :: int) ?gl (map (\<lambda>(i, j). cell ?M i j) ?gl) ?bl ''nearest''
             = Inr (replicate (length ?bl) 7)"
    by (simp add: fill_with_def)
  have 4: "length (replicate (length ?bl) (7 :: int)) = length ?bl" by simp
  from gap_fill_cells [where store = ?store and griddata = "fill_with 7" and eq = "(=)"
      and fout = "''out.tif''" and site = "None :: unit option", OF 0 1 2 3 4]
  obtain out where out: "gap_fill (=) (fill_with 7) ?store ?fs ''out.tif''
        (None :: unit option) ''nearest'' = Inr out"
    and cells: "\<forall>i<nrows (Read ?A). \<forall>j<ncols (Read ?A).
        (cell ?M i j \<noteq> NoDataValue ?A \<longrightarrow> cell (data out) i j = cell ?M i j) \<and>
        (cell ?M i j = NoDataValue ?A \<longrightarrow>
           map_of (zip ?bl (replicate (length ?bl) 7)) (i, j) = Some (cell (data out) i j))"
    by blast
  have "cell (data out) 0 0 = 8"
    using cells [rule_format, of 0 0] by (simp add: merged_def array_def)
  with out have "map_sum id (value_at 0 0) (gap_fill (=) (fill_with 7) ?store ?fs ''out.tif''
        (None :: unit option) ''nearest'') = Inr 8"
    by (simp add: value_at_def)
  moreover have "first_own_valid (=) [?A, ?B, ?C] 0 0 = Some 0"
    by (simp add: array_def)
  ultimately show ?thesis by simp
qed

text \<open>
  C6. For a list of one raster, every output of \<open>gap_fill\<close> has the raster's value at
  each cell that is not nodata: only nodata cells change, by the interpolation. And
  there is an output whenever the interpolation returns one value for each nodata cell.
\<close>

theorem gap_fill_single_keeps_valid:
  fixes eq :: "'a \<Rightarrow> 'a \<Rightarrow> bool" and A :: "'a geoimage"
  defines "nd \<equiv> NoDataValue A"
  defines "goodlocs \<equiv> where_true (ne_scalar eq (Read A) nd)"
  defines "badlocs \<equiv> where_true (eq_scalar eq (Read A) nd)"
  assumes opened: "store f = Some A"
  shows "(\<forall>out. gap_fill eq griddata store [f] fout site interpolation = Inr out \<longrightarrow>
            NoData out = nd \<and> shape (data out) = shape (Read A) \<and>
            (\<forall>i<nrows (Read A). \<forall>j<ncols (Read A).
               \<not> eq (cell (Read A) i j) nd \<longrightarrow> cell (data out) i j = cell (Read A) i j))
       \<and> (\<forall>r. griddata goodlocs (map (\<lambda>(i, j). cell (Read A) i j) goodlocs) badlocs interpolation = Inr r
                \<and> length r = length badlocs \<longrightarrow>
            (\<exists>out. gap_fill eq griddata store [f] fout site interpolation = Inr out))"
proof (intro conjI allI impI)
  have tk: "take_at (Read A) goodlocs = Inr (map (\<lambda>(i, j). cell (Read A) i j) goodlocs)"
    unfolding goodlocs_def by (intro take_at_where) (simp_all add: ne_scalar_def)
  let ?clip = "case site of None \<Rightarrow> None
               | Some s \<Rightarrow> (let parts = splitexts fout in Some (fst parts @ ''_clip'' @ snd parts))"
  have gf: "gap_fill eq griddata store [f] fout site interpolation =
     (case griddata goodlocs (map (\<lambda>(i, j). cell (Read A) i j) goodlocs) badlocs interpolation of
        Inl e \<Rightarrow> Inl e
      | Inr r \<Rightarrow> (case assign_at (Read A) badlocs r of
                    Inl e \<Rightarrow> Inl e
                  | Inr arr \<Rightarrow> Inr \<lparr>Filename = fout, extent = shape (Read A), NoData = nd,
                                      data = arr, clipfile = ?clip\<rparr>))"
    using tk unfolding goodlocs_def badlocs_def nd_def
    by (simp add: gap_fill_def GeoImage_def opened Let_def cong: sum.case_cong)
  { fix out
    assume "gap_fill eq griddata store [f] fout site interpolation = Inr out"
    with gf obtain r arr where asg: "assign_at (Read A) badlocs r = Inr arr"
      and out: "out = \<lparr>Filename = fout, extent = shape (Read A), NoData = nd,
                       data = arr, clipfile = ?clip\<rparr>"
      by (auto split: sum.splits)
    note o = assign_at_other [OF asg]
    show "NoData out = nd" by (simp add: out)
    show "shape (data out) = shape (Read A)" using o(1,2) by (simp add: out shape_def)
    fix i j
    assume ij: "i < nrows (Read A)" "j < ncols (Read A)" and v: "\<not> eq (cell (Read A) i j) nd"
    from v have "(i, j) \<notin> set badlocs" by (simp add: badlocs_def set_where_true eq_scalar_def)
    then show "cell (data out) i j = cell (Read A) i j" using o(3) by (simp add: out) }
  { fix r
    assume "griddata goodlocs (map (\<lambda>(i, j). cell (Read A) i j) goodlocs) badlocs interpolation = Inr r
              \<and> length r = length badlocs"
    then have g: "griddata goodlocs (map (\<lambda>(i, j). cell (Read A) i j) goodlocs) badlocs interpolation = Inr r"
      and l: "length r = length badlocs" by simp_all
    have "in_bounds (Read A) badlocs" unfolding badlocs_def
      by (intro in_bounds_where_true) (simp_all add: eq_scalar_def)
    with l have "assign_at (Read A) badlocs r = Inr (put (Read A) badlocs r)"
      by (simp add: assign_at_def)
    with g gf show "\<exists>out. gap_fill eq griddata store [f] fout site interpolation = Inr out"
      by simp }
qed

theorem gap_fill_single_keeps_valid_witness:
  "\<exists>out. gap_fill (=) (\<lambda>g v b m. Inr (replicate (length b) 7))
      [''r1.tif'' \<mapsto> \<lparr>NoDataValue = 0, Read = array [[1, 0], [5, 4 :: int]]\<rparr>]
      [''r1.tif''] ''out.tif'' (None :: unit option) ''nearest'' = Inr out
    \<and> cell (data out) 0 0 = 1 \<and> cell (data out) 1 0 = 5 \<and> cell (data out) 1 1 = 4"
proof -
  let ?A = "\<lparr>NoDataValue = 0, Read = array [[1, 0], [5, 4 :: int]]\<rparr>"
  let ?store = "[''r1.tif'' \<mapsto> ?A]"
  let ?g = "\<lambda>(g :: (nat \<times> nat) list) (v :: int list) (b :: (nat \<times> nat) list) (m :: string).
              Inr (replicate (length b) (7 :: int)) :: error + int list"
  have 1: "?store ''r1.tif'' = Some ?A" by simp
  note t = gap_fill_single_keeps_valid [where store = ?store and f = "''r1.tif''" and griddata = ?g
      and eq = "(=)" and fout = "''out.tif''" and site = "None :: unit option"
      and interpolation = "''nearest''", OF 1]
  from t [THEN conjunct2] obtain out where
    out: "gap_fill (=) ?g ?store [''r1.tif''] ''out.tif'' (None :: unit option) ''nearest'' = Inr out"
    by auto
  with t [THEN conjunct1] have cells: "\<forall>i<nrows (Read ?A). \<forall>j<ncols (Read ?A).
      cell (Read ?A) i j \<noteq> NoDataValue ?A \<longrightarrow> cell (data out) i j = cell (Read ?A) i j"
    by blast
  have "cell (data out) 0 0 = 1" using cells [rule_format, of 0 0] by (simp add: array_def)
  moreover have "cell (data out) 1 0 = 5" using cells [rule_format, of 1 0] by (simp add: array_def)
  moreover have "cell (data out) 1 1 = 4" using cells [rule_format, of 1 1] by (simp add: array_def)
  ultimately show ?thesis using out by blast
qed

text \<open>
  C10. For the empty list of file names \<open>gap_fill\<close> raises the exception
  "No filenames provided!", whatever the raster files, the interpolation and the other
  arguments are: no raster is opened and nothing is written.
\<close>

theorem gap_fill_no_filenames:
  "gap_fill eq griddata store [] fout site interpolation =
     Inl (Exception ''No filenames provided!'')"
  by (simp add: gap_fill_def)

end
